theory Spec2Isabelle
  imports Complex_Main
begin

section \<open>JavaScript values\<close>

text \<open>
  The request body of \<^verbatim>\<open>POST /mix\<close> is decoded JSON, and \<^verbatim>\<open>mixAudioFiles\<close> reads its
  \<^verbatim>\<open>volumes\<close> argument with no type check, so the model carries untyped JavaScript
  values. A number is a double: only its truthiness and its text matter here, so a finite
  double is carried as the rational it denotes (\<open>-0\<close> is \<open>Fin 0\<close>: both are falsy and both
  print as \<^verbatim>\<open>0\<close>). An object is the association list of its own properties, looked up
  by first match. Strings are lists of code units below 256.
\<close>

datatype jsnum = NaN | PosInfinity | NegInfinity | Fin rat

datatype jsval =
    JUndefined
  | JNull
  | JBool bool
  | JNum jsnum
  | JStr string
  | JArr "jsval list"
  | JObj "(string \<times> jsval) list"

datatype error = Error string | TypeError string

text \<open>ToBoolean: what \<^verbatim>\<open>!x\<close>, \<^verbatim>\<open>x && y\<close> and \<^verbatim>\<open>x || y\<close> test.\<close>

fun truthy :: "jsval \<Rightarrow> bool" where
  "truthy JUndefined = False"
| "truthy JNull = False"
| "truthy (JBool b) = b"
| "truthy (JNum NaN) = False"
| "truthy (JNum (Fin q)) = (q \<noteq> 0)"
| "truthy (JNum _) = True"
| "truthy (JStr s) = (s \<noteq> [])"
| "truthy (JArr _) = True"
| "truthy (JObj _) = True"

text \<open>Decimal text of an array index or a length, as a template literal prints it.\<close>

definition digit :: "nat \<Rightarrow> char" where
  "digit d = ''0123456789'' ! d"

fun decimal :: "nat \<Rightarrow> string" where
  "decimal n = (if n < 10 then [digit n] else decimal (n div 10) @ [digit (n mod 10)])"

declare decimal.simps [simp del]

text \<open>
  ToString of a template literal. \<open>numToString\<close> is the engine's Number::toString on a
  finite double, taken as a parameter. A plain object prints through
  \<^verbatim>\<open>Object.prototype.toString\<close>; an own property named \<^verbatim>\<open>toString\<close> decoded from JSON is
  not callable, \<^verbatim>\<open>valueOf\<close> then returns no primitive, and the conversion throws.
  An array prints through \<^verbatim>\<open>join(',')\<close>, where \<^verbatim>\<open>null\<close> and \<^verbatim>\<open>undefined\<close> elements
  print as the empty string.
\<close>

fun toString :: "(rat \<Rightarrow> string) \<Rightarrow> jsval \<Rightarrow> error + string"
  and join_comma :: "(rat \<Rightarrow> string) \<Rightarrow> jsval list \<Rightarrow> error + string" where
  "toString numToString JUndefined = Inr ''undefined''"
| "toString numToString JNull = Inr ''null''"
| "toString numToString (JBool b) = Inr (if b then ''true'' else ''false'')"
| "toString numToString (JNum NaN) = Inr ''NaN''"
| "toString numToString (JNum PosInfinity) = Inr ''Infinity''"
| "toString numToString (JNum NegInfinity) = Inr ''-Infinity''"
| "toString numToString (JNum (Fin q)) = Inr (numToString q)"
| "toString numToString (JStr s) = Inr s"
| "toString numToString (JArr xs) = join_comma numToString xs"
| "toString numToString (JObj kvs) =
     (if ''toString'' \<in> fst ` set kvs
      then Inl (TypeError ''Cannot convert object to primitive value'')
      else Inr ''[object Object]'')"
| "join_comma numToString [] = Inr []"
| "join_comma numToString (x # xs) =
     (case (if x = JUndefined \<or> x = JNull then Inr [] else toString numToString x) of
        Inl e \<Rightarrow> Inl e
      | Inr s \<Rightarrow>
          (if xs = [] then Inr s
           else (case join_comma numToString xs of
                   Inl e \<Rightarrow> Inl e
                 | Inr t \<Rightarrow> Inr (s @ '','' @ t))))"

text \<open>
  \<^verbatim>\<open>volumes[index]\<close>: reading an index of \<^verbatim>\<open>null\<close> throws; a string yields its code
  unit, an array its element, an object its property of that decimal name; everything
  else, and every index out of range, yields \<^verbatim>\<open>undefined\<close>. The message of the
  TypeError is the engine's; only its presence matters.
\<close>

fun get_index :: "jsval \<Rightarrow> nat \<Rightarrow> error + jsval" where
  "get_index JUndefined i =
     Inl (TypeError (''Cannot read properties of undefined (reading '' @ decimal i @ '')''))"
| "get_index JNull i =
     Inl (TypeError (''Cannot read properties of null (reading '' @ decimal i @ '')''))"
| "get_index (JStr s) i = Inr (if i < length s then JStr [s ! i] else JUndefined)"
| "get_index (JArr xs) i = Inr (if i < length xs then xs ! i else JUndefined)"
| "get_index (JObj kvs) i =
     Inr (case map_of kvs (decimal i) of None \<Rightarrow> JUndefined | Some v \<Rightarrow> v)"
| "get_index _ i = Inr JUndefined"

section \<open>mixAudioFiles: the ffmpeg argument list\<close>

text \<open>The first \<^verbatim>\<open>forEach\<close>: \<^verbatim>\<open>args.push('-i', file)\<close> for each input file.\<close>

fun push_inputs :: "string list \<Rightarrow> string list \<Rightarrow> string list" where
  "push_inputs [] args = args"
| "push_inputs (file # files) args = push_inputs files (args @ [''-i'', file])"

text \<open>
  The second \<^verbatim>\<open>forEach\<close>, from position \<open>index\<close> on:
  \<^verbatim>\<open>const volume = volumes[index] || 1.0\<close>, then one filter segment appended to
  \<^verbatim>\<open>filterComplex\<close>.
\<close>

definition volume_at :: "jsval \<Rightarrow> nat \<Rightarrow> error + jsval" where
  "volume_at volumes index =
     (case get_index volumes index of
        Inl e \<Rightarrow> Inl e
      | Inr v \<Rightarrow> Inr (if truthy v then v else JNum (Fin 1)))"

text \<open>
  The text that \<^verbatim>\<open>${volume}\<close> puts into the segment of one index, and the segment
  \<^verbatim>\<open>`[${index}:a]volume=${volume}[a${index}];`\<close> itself.
\<close>

definition volume_text :: "(rat \<Rightarrow> string) \<Rightarrow> jsval \<Rightarrow> nat \<Rightarrow> error + string" where
  "volume_text numToString volumes index =
     (case volume_at volumes index of
        Inl e \<Rightarrow> Inl e
      | Inr volume \<Rightarrow> toString numToString volume)"

definition segment :: "nat \<Rightarrow> string \<Rightarrow> string" where
  "segment index v = ''['' @ decimal index @ '':a]volume='' @ v @ ''[a'' @ decimal index @ ''];''"

fun filter_loop ::
  "(rat \<Rightarrow> string) \<Rightarrow> jsval \<Rightarrow> nat \<Rightarrow> string list \<Rightarrow> string \<Rightarrow> error + string" where
  "filter_loop numToString volumes index [] filterComplex = Inr filterComplex"
| "filter_loop numToString volumes index (file # files) filterComplex =
     (case volume_text numToString volumes index of
        Inl e \<Rightarrow> Inl e
      | Inr v \<Rightarrow>
          filter_loop numToString volumes (index + 1) files (filterComplex @ segment index v))"

text \<open>\<^verbatim>\<open>inputFiles.map((_, index) => `[a${index}]`).join('')\<close>.\<close>

definition mixInputs :: "string list \<Rightarrow> string" where
  "mixInputs inputFiles =
     concat (map (\<lambda>index. ''[a'' @ decimal index @ '']'') [0..<length inputFiles])"

text \<open>
  The argument list handed to \<^verbatim>\<open>spawn\<close>. The parameter default \<^verbatim>\<open>volumes = []\<close>
  replaces \<^verbatim>\<open>undefined\<close> and nothing else. An exception inside the promise executor
  rejects the promise before any process is started: that is the \<open>Inl\<close> result.
\<close>

definition default_volumes :: "jsval \<Rightarrow> jsval" where
  "default_volumes volumes = (if volumes = JUndefined then JArr [] else volumes)"

definition mix_args ::
  "(rat \<Rightarrow> string) \<Rightarrow> string list \<Rightarrow> string \<Rightarrow> jsval \<Rightarrow> error + string list" where
  "mix_args numToString inputFiles outputFile volumes =
     (let args = push_inputs inputFiles [] in
      case filter_loop numToString (default_volumes volumes) 0 inputFiles [] of
        Inl e \<Rightarrow> Inl e
      | Inr filterComplex \<Rightarrow>
          Inr (args @
               [''-filter_complex'',
                filterComplex @ mixInputs inputFiles @ ''amix=inputs=''
                  @ decimal (length inputFiles) @ '':duration=longest[out]'',
                ''-map'', ''[out]'',
                ''-c:a'', ''mp3'',
                ''-b:a'', ''192k'',
                ''-y'',
                outputFile]))"

section \<open>Strings of the request handler\<close>

text \<open>\<^verbatim>\<open>String.prototype.trim\<close>: the white space and line terminators below code unit 256.\<close>

definition is_space :: "char \<Rightarrow> bool" where
  "is_space c =
     (c \<in> set [CHR 0x09, CHR 0x0A, CHR 0x0B, CHR 0x0C, CHR 0x0D, CHR 0x20, CHR 0xA0])"

definition trim :: "string \<Rightarrow> string" where
  "trim s = rev (dropWhile is_space (rev (dropWhile is_space s)))"

text \<open>\<^verbatim>\<open>s.split(sep)\<close> for a separator of one character: never an empty array.\<close>

fun split_on :: "char \<Rightarrow> string \<Rightarrow> string list" where
  "split_on sep [] = [[]]"
| "split_on sep (c # cs) =
     (if c = sep then [] # split_on sep cs
      else (case split_on sep cs of
              [] \<Rightarrow> [[c]]
            | part # parts \<Rightarrow> (c # part) # parts))"

text \<open>
  The extension of the scratch file name (the download loop of the handler):
  \<^verbatim>\<open>urlParts = stemUrl.split('.')\<close>; with more than one part, \<^verbatim>\<open>lastPart = urlParts.pop()\<close>
  and, when it is not empty, \<^verbatim>\<open>extension = lastPart.split('?')[0]\<close>; in every other
  case the default \<^verbatim>\<open>'wav'\<close> stays. Nothing in the \<^verbatim>\<open>try\<close> block throws on a string.
\<close>

definition extract_extension :: "string \<Rightarrow> string" where
  "extract_extension stemUrl =
     (let urlParts = split_on CHR ''.'' stemUrl in
      if length urlParts > 1 then
        (let lastPart = last urlParts in
         if length lastPart > 0 then hd (split_on CHR ''?'' lastPart) else ''wav'')
      else ''wav'')"

definition stem_filename :: "string \<Rightarrow> nat \<Rightarrow> string \<Rightarrow> string" where
  "stem_filename requestId i stemUrl =
     requestId @ ''_stem_'' @ decimal i @ ''.'' @ extract_extension stemUrl"

section \<open>The outside world\<close>

text \<open>
  What the handler does not compute is a parameter: the token \<^verbatim>\<open>uuidv4()\<close> returned for
  this request, the scratch directory, \<^verbatim>\<open>path.join\<close>, Number::toString, the answer of
  \<^verbatim>\<open>fetch\<close> to each URL, which paths \<^verbatim>\<open>writeFileSync\<close> and \<^verbatim>\<open>unlinkSync\<close> refuse,
  what the ffmpeg process does to the files, and whether streaming the result fails.
  The file system maps the existing paths to their contents.
\<close>

type_synonym filesystem = "string \<rightharpoonup> string"

record http_response =
  status :: nat
  statusText :: string
  buffer :: "error + string"

datatype fetch_result = Rejected error | Resolved http_response

datatype process_result = SpawnError error | Closed "nat option" filesystem

record env =
  requestId :: string
  tempDir :: string
  path_join :: "string \<Rightarrow> string \<Rightarrow> string"
  numberToString :: "rat \<Rightarrow> string"
  fetch :: "string \<Rightarrow> fetch_result"
  write_error :: "string \<Rightarrow> error option"
  unlink_error :: "string \<Rightarrow> error option"
  ffmpeg :: "string list \<Rightarrow> filesystem \<Rightarrow> process_result"
  stream_fails :: bool

text \<open>
  What a request does, in order: the calls of \<^verbatim>\<open>downloadFile\<close> (its first console
  line), the GET requests issued, the files written, the process started, the calls of
  \<^verbatim>\<open>cleanup\<close> and its two console lines, and what is sent to the client (\<open>SendJson\<close>
  carries the status and the object given to \<^verbatim>\<open>res.json\<close>).
\<close>

datatype event =
    DownloadFile string string
  | HttpGet string
  | FileWritten string
  | Spawn "string list"
  | CleanupCalled "string list"
  | CleanedUp string
  | FailedToCleanup string
  | SendJson nat "(string \<times> jsval) list"
  | SetHeader string string
  | SendFile string
  | StreamError

record state =
  fs :: filesystem
  trace :: "event list"
  tempFiles :: "string list"

definition emit :: "event \<Rightarrow> state \<Rightarrow> state" where
  "emit ev st = st\<lparr>trace := trace st @ [ev]\<rparr>"

definition existsSync :: "filesystem \<Rightarrow> string \<Rightarrow> bool" where
  "existsSync files file = (files file \<noteq> None)"

definition unlinkSync :: "env \<Rightarrow> string \<Rightarrow> filesystem \<Rightarrow> error + filesystem" where
  "unlinkSync env file files =
     (case unlink_error env file of
        Some e \<Rightarrow> Inl e
      | None \<Rightarrow>
          (if files file = None then Inl (Error (''ENOENT: no such file or directory, unlink '' @ file))
           else Inr (files(file := None))))"

section \<open>cleanup\<close>

text \<open>
  The body of the \<^verbatim>\<open>forEach\<close> in \<^verbatim>\<open>cleanup\<close>: the \<^verbatim>\<open>try\<close> block is the inner \<open>case\<close>, the
  \<^verbatim>\<open>catch\<close> block turns its exception into a console line. The result type keeps an
  exception apart from a normal return, so that what escapes to the caller is visible.
\<close>

definition cleanup_file :: "env \<Rightarrow> string \<Rightarrow> state \<Rightarrow> error + state" where
  "cleanup_file env file st =
     (if existsSync (fs st) file then
        (case (case unlinkSync env file (fs st) of
                 Inl e \<Rightarrow> Inl e
               | Inr files \<Rightarrow> Inr (emit (CleanedUp file) (st\<lparr>fs := files\<rparr>))) of
           Inl error \<Rightarrow> Inr (emit (FailedToCleanup file) st)
         | Inr st' \<Rightarrow> Inr st')
      else Inr st)"

text \<open>\<^verbatim>\<open>files.forEach(f)\<close> where \<open>f\<close> may throw: the first exception ends the loop.\<close>

fun forEach :: "('a \<Rightarrow> 's \<Rightarrow> error + 's) \<Rightarrow> 'a list \<Rightarrow> 's \<Rightarrow> error + 's" where
  "forEach f [] st = Inr st"
| "forEach f (x # xs) st = (case f x st of Inl e \<Rightarrow> Inl e | Inr st' \<Rightarrow> forEach f xs st')"

definition cleanup :: "env \<Rightarrow> string list \<Rightarrow> state \<Rightarrow> error + state" where
  "cleanup env files st = forEach (cleanup_file env) files st"

section \<open>downloadFile\<close>

definition ok :: "http_response \<Rightarrow> bool" where
  "ok response = (200 \<le> status response \<and> status response < 300)"

definition dquote :: string where
  "dquote = [CHR 0x22]"

text \<open>
  The result is the exception thrown, if any, and the state reached. A failed
  \<^verbatim>\<open>writeFileSync\<close> leaves no file behind.
\<close>

definition downloadFile :: "env \<Rightarrow> string \<Rightarrow> string \<Rightarrow> state \<Rightarrow> error option \<times> state" where
  "downloadFile env url filepath st0 =
     (let st = emit (DownloadFile url filepath) st0 in
      if trim url = [] then
        (Some (Error (''Invalid URL for download: string - '' @ dquote @ url @ dquote)), st)
      else if trim filepath = [] then
        (Some (Error (''Invalid filepath for download: string - '' @ dquote @ filepath @ dquote)), st)
      else
        (let st1 = emit (HttpGet url) st in
         case fetch env url of
           Rejected e \<Rightarrow> (Some e, st1)
         | Resolved response \<Rightarrow>
             (if \<not> ok response then
                (Some (Error (''Failed to download: '' @ decimal (status response) @ '' ''
                                @ statusText response)), st1)
              else
                (case buffer response of
                   Inl e \<Rightarrow> (Some e, st1)
                 | Inr bytes \<Rightarrow>
                     (case write_error env filepath of
                        Some e \<Rightarrow> (Some e, st1)
                      | None \<Rightarrow>
                          (None, emit (FileWritten filepath)
                                   (st1\<lparr>fs := (fs st1)(filepath \<mapsto> bytes)\<rparr>)))))))"

section \<open>The handler of POST /mix\<close>

text \<open>
  \<^verbatim>\<open>typeof v === 'object'\<close> holds of \<^verbatim>\<open>null\<close>, of arrays and of objects. \<open>own_prop\<close> reads
  a property of a value that is neither \<^verbatim>\<open>null\<close> nor \<^verbatim>\<open>undefined\<close>; it is used for the
  names \<^verbatim>\<open>stems\<close>, \<^verbatim>\<open>volumes\<close> and \<^verbatim>\<open>url\<close> only, which no prototype defines.
\<close>

fun typeof_object :: "jsval \<Rightarrow> bool" where
  "typeof_object JNull = True"
| "typeof_object (JArr _) = True"
| "typeof_object (JObj _) = True"
| "typeof_object _ = False"

fun own_prop :: "jsval \<Rightarrow> string \<Rightarrow> jsval" where
  "own_prop (JObj kvs) name = (case map_of kvs name of None \<Rightarrow> JUndefined | Some v \<Rightarrow> v)"
| "own_prop _ name = JUndefined"

fun isArray :: "jsval \<Rightarrow> bool" where
  "isArray (JArr _) = True"
| "isArray _ = False"

fun elements :: "jsval \<Rightarrow> jsval list" where
  "elements (JArr xs) = xs"
| "elements _ = []"

text \<open>
  The first \<^verbatim>\<open>if\<close> chain of the validation loop: the URL candidate of a stem, or \<open>None\<close>
  in the \<^verbatim>\<open>else\<close> branch.
\<close>

definition stem_url :: "jsval \<Rightarrow> jsval option" where
  "stem_url stem =
     (case stem of
        JStr s \<Rightarrow> Some stem
      | _ \<Rightarrow>
          (if truthy stem \<and> typeof_object stem \<and> truthy (own_prop stem ''url'')
           then Some (own_prop stem ''url'')
           else None))"

definition invalid_stem :: "string \<Rightarrow> nat \<Rightarrow> jsval \<Rightarrow> (string \<times> jsval) list" where
  "invalid_stem rid i stem =
     [(''error'', JStr (''Invalid stem at index '' @ decimal i
                         @ ''. Expected string URL or object with url property'')),
      (''received'', stem),
      (''requestId'', JStr rid)]"

definition invalid_url :: "string \<Rightarrow> nat \<Rightarrow> jsval \<Rightarrow> (string \<times> jsval) list" where
  "invalid_url rid i stemUrl =
     [(''error'', JStr (''Invalid URL at index '' @ decimal i @ ''. Expected non-empty string'')),
      (''received'', stemUrl),
      (''requestId'', JStr rid)]"

text \<open>
  The validation loop from index \<open>i\<close> on. It ends in one of three ways: an exception
  (\<open>Throws\<close>, which the \<^verbatim>\<open>catch\<close> block of the handler receives), the body of a 400
  response (\<open>Responds400\<close>), or the array \<^verbatim>\<open>validatedStems\<close> (\<open>Validated\<close>). Three
  expressions of its console lines can throw and are steps of the model:
  \<^verbatim>\<open>String(stem)\<close> in the first line of each round; the template literal
  \<^verbatim>\<open>`${stemUrl}`\<close> after the URL is taken from the stem; and
  \<^verbatim>\<open>stemUrl ? stemUrl.trim() : 'Cannot trim'\<close> in the line of the invalid-URL branch,
  where \<^verbatim>\<open>trim\<close> is not a function of a truthy value that is not a string.
\<close>

datatype validation =
    Throws error
  | Responds400 "(string \<times> jsval) list"
  | Validated "string list"

fun validate_stems ::
  "(rat \<Rightarrow> string) \<Rightarrow> string \<Rightarrow> nat \<Rightarrow> jsval list \<Rightarrow> string list \<Rightarrow> validation" where
  "validate_stems numToString rid i [] validatedStems = Validated validatedStems"
| "validate_stems numToString rid i (stem # rest) validatedStems =
     (case toString numToString stem of
        Inl e \<Rightarrow> Throws e
      | Inr stringValue \<Rightarrow>
          (case stem_url stem of
             None \<Rightarrow> Responds400 (invalid_stem rid i stem)
           | Some stemUrl \<Rightarrow>
               (case toString numToString stemUrl of
                  Inl e \<Rightarrow> Throws e
                | Inr shown \<Rightarrow>
                    (case stemUrl of
                       JStr s \<Rightarrow>
                         (if trim s = [] then Responds400 (invalid_url rid i stemUrl)
                          else validate_stems numToString rid (i + 1) rest
                                 (validatedStems @ [trim s]))
                     | _ \<Rightarrow>
                         (if truthy stemUrl
                          then Throws (TypeError ''stemUrl.trim is not a function'')
                          else Responds400 (invalid_url rid i stemUrl))))))"

text \<open>
  The download loop from index \<open>i\<close> on. Each path is pushed to \<^verbatim>\<open>inputFiles\<close> and to
  \<^verbatim>\<open>tempFiles\<close> after its download returned; an exception of \<^verbatim>\<open>downloadFile\<close> leaves the
  loop with the state reached.
\<close>

fun download_loop ::
  "env \<Rightarrow> nat \<Rightarrow> string list \<Rightarrow> string list \<Rightarrow> state \<Rightarrow> (error + string list) \<times> state" where
  "download_loop env i [] inputFiles st = (Inr inputFiles, st)"
| "download_loop env i (stemUrl # rest) inputFiles st =
     (let filename = stem_filename (requestId env) i stemUrl;
          filepath = path_join env (tempDir env) filename in
      case downloadFile env stemUrl filepath st of
        (Some e, st1) \<Rightarrow> (Inl e, st1)
      | (None, st1) \<Rightarrow>
          download_loop env (i + 1) rest (inputFiles @ [filepath])
            (st1\<lparr>tempFiles := tempFiles st1 @ [filepath]\<rparr>))"

text \<open>
  \<^verbatim>\<open>mixAudioFiles\<close>: the process is started with the argument list of \<open>mix_args\<close>; the
  promise resolves when the process closes with code 0 and rejects otherwise.
\<close>

definition mixAudioFiles ::
  "env \<Rightarrow> string list \<Rightarrow> string \<Rightarrow> jsval \<Rightarrow> state \<Rightarrow> error option \<times> state" where
  "mixAudioFiles env inputFiles outputFile volumes st =
     (case mix_args (numberToString env) inputFiles outputFile volumes of
        Inl e \<Rightarrow> (Some e, st)
      | Inr args \<Rightarrow>
          (let st1 = emit (Spawn args) st in
           case ffmpeg env args (fs st1) of
             SpawnError e \<Rightarrow> (Some e, st1)
           | Closed code files \<Rightarrow>
               (if code = Some 0 then (None, st1\<lparr>fs := files\<rparr>)
                else (Some (Error (''ffmpeg process exited with code ''
                                     @ (case code of None \<Rightarrow> ''null'' | Some c \<Rightarrow> decimal c))),
                      st1\<lparr>fs := files\<rparr>))))"

text \<open>
  A call of \<^verbatim>\<open>cleanup(tempFiles)\<close> by the handler. An exception of \<^verbatim>\<open>cleanup\<close> would
  escape the handler: it is the first component of the result.
\<close>

definition call_cleanup :: "env \<Rightarrow> state \<Rightarrow> error option \<times> state" where
  "call_cleanup env st =
     (let st1 = emit (CleanupCalled (tempFiles st)) st in
      case cleanup env (tempFiles st) st1 of
        Inl e \<Rightarrow> (Some e, st1)
      | Inr st2 \<Rightarrow> (None, st2))"

text \<open>
  The end of the \<^verbatim>\<open>try\<close> block, once the mixed file exists: two headers, the file
  piped to the response, and \<^verbatim>\<open>cleanup\<close> from the stream's \<^verbatim>\<open>end\<close> callback (after its
  delay) or from its \<^verbatim>\<open>error\<close> callback; a read stream on a missing file fails too.
  The first component of the result is an exception of such a callback, which no
  \<^verbatim>\<open>catch\<close> block sees.
\<close>

definition send_mixed :: "env \<Rightarrow> string \<Rightarrow> state \<Rightarrow> error option \<times> state" where
  "send_mixed env outputPath st =
     (let st1 = emit (SetHeader ''Content-Type'' ''audio/mpeg'') st;
          st2 = emit (SetHeader ''Content-Disposition''
                        (''attachment; filename='' @ dquote @ ''mixed_'' @ requestId env
                           @ ''.mp3'' @ dquote)) st1 in
      case (if stream_fails env then None else fs st2 outputPath) of
        None \<Rightarrow> call_cleanup env (emit StreamError st2)
      | Some bytes \<Rightarrow> call_cleanup env (emit (SendFile bytes) st2))"

text \<open>
  The \<^verbatim>\<open>try\<close> block. The result \<open>Inl e\<close> is the exception the \<^verbatim>\<open>catch\<close> block receives;
  \<open>Inr u\<close> is a normal end, where \<open>u\<close> is an exception thrown from a stream callback, if
  any.
\<close>

definition mix_try :: "env \<Rightarrow> jsval \<Rightarrow> state \<Rightarrow> (error + error option) \<times> state" where
  "mix_try env body st =
     (if body = JUndefined \<or> body = JNull then
        (Inl (TypeError ''Cannot destructure property stems of req.body''), st)
      else
        (let stems = own_prop body ''stems'';
             volumes = own_prop body ''volumes'' in
         if \<not> truthy stems \<or> \<not> isArray stems \<or> length (elements stems) = 0 then
           (Inr None,
            emit (SendJson 400
                    [(''error'', JStr ''stems array is required and must not be empty'')]) st)
         else
           (case validate_stems (numberToString env) (requestId env) 0 (elements stems) [] of
              Throws e \<Rightarrow> (Inl e, st)
            | Responds400 rejection \<Rightarrow> (Inr None, emit (SendJson 400 rejection) st)
            | Validated validatedStems \<Rightarrow>
                (case download_loop env 0 validatedStems [] st of
                   (Inl e, st1) \<Rightarrow> (Inl e, st1)
                 | (Inr inputFiles, st1) \<Rightarrow>
                     (let outputPath =
                            path_join env (tempDir env) (requestId env @ ''_mixed.mp3'');
                          st2 = st1\<lparr>tempFiles := tempFiles st1 @ [outputPath]\<rparr> in
                      case mixAudioFiles env inputFiles outputPath volumes st2 of
                        (Some e, st3) \<Rightarrow> (Inl e, st3)
                      | (None, st3) \<Rightarrow>
                          (if \<not> existsSync (fs st3) outputPath then
                             (Inl (Error ''Mixed audio file was not created''), st3)
                           else
                             (case send_mixed env outputPath st3 of
                                (u, st4) \<Rightarrow> (Inr u, st4))))))))"

definition error_message :: "error \<Rightarrow> string" where
  "error_message e = (case e of Error m \<Rightarrow> m | TypeError m \<Rightarrow> m)"

definition failure_body :: "env \<Rightarrow> string \<Rightarrow> (string \<times> jsval) list" where
  "failure_body env details =
     [(''error'', JStr ''Failed to mix audio files''),
      (''details'', JStr details),
      (''requestId'', JStr (requestId env))]"

text \<open>
  The whole handler, started on a file system with \<^verbatim>\<open>tempFiles = []\<close>. The \<^verbatim>\<open>catch\<close>
  block calls \<^verbatim>\<open>cleanup(tempFiles)\<close> and then answers 500. The first component of the
  result is an exception that escapes the handler.
\<close>

definition mix_handler :: "env \<Rightarrow> jsval \<Rightarrow> filesystem \<Rightarrow> error option \<times> state" where
  "mix_handler env body files =
     (case mix_try env body \<lparr>fs = files, trace = [], tempFiles = []\<rparr> of
        (Inr u, st) \<Rightarrow> (u, st)
      | (Inl error, st) \<Rightarrow>
          (case call_cleanup env st of
             (Some e, st1) \<Rightarrow> (Some e, st1)
           | (None, st1) \<Rightarrow>
               (None, emit (SendJson 500 (failure_body env (error_message error))) st1)))"

text \<open>
  Read off a trace: the JSON responses sent, the calls of \<^verbatim>\<open>downloadFile\<close>, the files
  written.
\<close>

definition json_sent :: "event list \<Rightarrow> (nat \<times> (string \<times> jsval) list) list" where
  "json_sent evs =
     concat (map (\<lambda>ev. case ev of SendJson code obj \<Rightarrow> [(code, obj)] | _ \<Rightarrow> []) evs)"

definition downloads :: "event list \<Rightarrow> (string \<times> string) list" where
  "downloads evs =
     concat (map (\<lambda>ev. case ev of DownloadFile url file \<Rightarrow> [(url, file)] | _ \<Rightarrow> []) evs)"

definition written :: "event list \<Rightarrow> string list" where
  "written evs = concat (map (\<lambda>ev. case ev of FileWritten file \<Rightarrow> [file] | _ \<Rightarrow> []) evs)"

section \<open>Vocabulary of the properties\<close>

text \<open>
  A stem the specification accepts: a string that is not empty after trimming, or an
  object whose \<^verbatim>\<open>url\<close> is such a string. This follows the words of the specification;
  the handler's own test is \<open>validate_stems\<close>.
\<close>

definition acceptable_stem :: "jsval \<Rightarrow> bool" where
  "acceptable_stem x =
     (case x of
        JStr s \<Rightarrow> trim s \<noteq> []
      | JObj kvs \<Rightarrow> (case map_of kvs ''url'' of Some (JStr u) \<Rightarrow> trim u \<noteq> [] | _ \<Rightarrow> False)
      | _ \<Rightarrow> False)"

text \<open>The GET of a URL is answered, with a status outside 200..299.\<close>

definition non_success :: "env \<Rightarrow> string \<Rightarrow> bool" where
  "non_success env url =
     (case fetch env url of Resolved response \<Rightarrow> \<not> ok response | Rejected e \<Rightarrow> False)"

text \<open>
  A value whose conversion to a string returns: no object in it, at any depth of
  arrays, has an entry named \<^verbatim>\<open>toString\<close>. Every number, string, boolean and \<^verbatim>\<open>null\<close> is
  such a value.
\<close>

fun convertible :: "jsval \<Rightarrow> bool" where
  "convertible (JObj kvs) = (''toString'' \<notin> fst ` set kvs)"
| "convertible (JArr xs) = list_all convertible xs"
| "convertible _ = True"

text \<open>The volume the loop uses at an index of an array: the entry if truthy, else 1.0.\<close>

definition effective_volume :: "jsval list \<Rightarrow> nat \<Rightarrow> jsval" where
  "effective_volume vs i = (if i < length vs \<and> truthy (vs ! i) then vs ! i else JNum (Fin 1))"

section \<open>A sample world\<close>

text \<open>
  A world for the examples: the number printer agrees with Number::toString on the few
  numbers used, one URL answers 404, one path cannot be unlinked, and the process
  writes its last argument.
\<close>

definition sample_numToString :: "rat \<Rightarrow> string" where
  "sample_numToString q =
     (if q = 1 then ''1'' else if q = 1 / 2 then ''0.5'' else if q = 2 then ''2'' else ''0'')"

definition sample_fetch :: "string \<Rightarrow> fetch_result" where
  "sample_fetch url =
     (if url = ''https://x/missing.wav''
      then Resolved \<lparr>status = 404, statusText = ''Not Found'', buffer = Inr []\<rparr>
      else Resolved \<lparr>status = 200, statusText = ''OK'', buffer = Inr ''RIFF''\<rparr>)"

definition sample_env :: env where
  "sample_env =
     \<lparr>requestId = ''r1'',
      tempDir = ''/app/temp'',
      path_join = (\<lambda>dir name. dir @ ''/'' @ name),
      numberToString = sample_numToString,
      fetch = sample_fetch,
      write_error = (\<lambda>path. None),
      unlink_error = (\<lambda>path. if path = ''/app/temp/locked'' then Some (Error ''EPERM'') else None),
      ffmpeg = (\<lambda>args files. Closed (Some 0) (files(last args \<mapsto> ''ID3''))),
      stream_fails = False\<rparr>"

section \<open>The argument list of mixAudioFiles\<close>

lemma push_inputs_eq:
  "push_inputs files args = args @ concat (map (\<lambda>file. [''-i'', file]) files)"
  by (induction files arbitrary: args) simp_all

text \<open>
  When the volume text of every index is available, the loop appends one segment per
  index, in order.
\<close>

lemma filter_loop_ok:
  "(\<And>k. k < length files \<Longrightarrow> volume_text nts volumes (i + k) = Inr (t (i + k))) \<Longrightarrow>
   filter_loop nts volumes i files fc =
     Inr (fc @ concat (map (\<lambda>j. segment j (t j)) [i..<i + length files]))"
proof (induction files arbitrary: i fc)
  case Nil
  then show ?case by simp
next
  case (Cons x xs)
  have here: "volume_text nts volumes i = Inr (t i)"
    using Cons.prems [of 0] by simp
  have rest: "\<And>k. k < length xs \<Longrightarrow> volume_text nts volumes (Suc i + k) = Inr (t (Suc i + k))"
    using Cons.prems [of "Suc k" for k] by simp
  have "[i..<i + length (x # xs)] = i # [Suc i..<Suc i + length xs]"
    by (subst upt_rec) simp
  then show ?case
    using here Cons.IH [OF rest] by simp
qed

text \<open>The loop reads the volumes only through the volume text of the indices it visits.\<close>

lemma filter_loop_cong:
  "(\<And>k. k < length files \<Longrightarrow>
        volume_text nts volumes (i + k) = volume_text nts volumes' (i + k)) \<Longrightarrow>
   filter_loop nts volumes i files fc = filter_loop nts volumes' i files fc"
proof (induction files arbitrary: i fc)
  case Nil
  then show ?case by simp
next
  case (Cons x xs)
  have here: "volume_text nts volumes i = volume_text nts volumes' i"
    using Cons.prems [of 0] by simp
  have rest: "\<And>k. k < length xs \<Longrightarrow>
      volume_text nts volumes (Suc i + k) = volume_text nts volumes' (Suc i + k)"
    using Cons.prems [of "Suc k" for k] by simp
  show ?case
    using here Cons.IH [OF rest] by (simp split: sum.splits)
qed

text \<open>An exception at some index leaves no argument list: no process is started.\<close>

lemma filter_loop_throws:
  "k < length files \<Longrightarrow> volume_text nts volumes (i + k) = Inl e \<Longrightarrow>
   \<exists>e'. filter_loop nts volumes i files fc = Inl e'"
proof (induction files arbitrary: i k fc)
  case Nil
  then show ?case by simp
next
  case (Cons x xs)
  show ?case
  proof (cases k)
    case 0
    then show ?thesis using Cons.prems by simp
  next
    case (Suc k')
    then have "k' < length xs" "volume_text nts volumes (Suc i + k') = Inl e"
      using Cons.prems by simp_all
    from Cons.IH [OF this] show ?thesis
      by (simp split: sum.splits)
  qed
qed

lemma volume_text_array:
  "volume_text nts (JArr vs) i = toString nts (effective_volume vs i)"
  by (simp add: volume_text_def volume_at_def effective_volume_def)

text \<open>The volume text of an absent \<^verbatim>\<open>volumes\<close> is that of 1.0 at every index.\<close>

lemma volume_text_absent: "volume_text nts (default_volumes JUndefined) i = Inr (nts 1)"
  by (simp add: default_volumes_def volume_text_def volume_at_def)

text \<open>
  The string conversion returns exactly on the convertible values, and its only
  exception is the TypeError of an object that cannot be made a primitive.
\<close>

lemma convertible_toString:
  "convertible v \<Longrightarrow> \<exists>s. toString nts v = Inr s"
  "list_all convertible xs \<Longrightarrow> \<exists>s. join_comma nts xs = Inr s"
  by (induction nts v and nts xs rule: toString_join_comma.induct) auto

lemma inconvertible_toString:
  "\<not> convertible v \<Longrightarrow>
     toString nts v = Inl (TypeError ''Cannot convert object to primitive value'')"
  "\<not> list_all convertible xs \<Longrightarrow>
     join_comma nts xs = Inl (TypeError ''Cannot convert object to primitive value'')"
proof (induction nts v and nts xs rule: toString_join_comma.induct)
  case (12 numToString x xs)
  show ?case
  proof (cases "convertible x")
    case False
    then have "x \<noteq> JUndefined" "x \<noteq> JNull" by auto
    then show ?thesis using False "12.IH"(1) by simp
  next
    case True
    then have rest: "\<not> list_all convertible xs" using "12.prems" by simp
    then have "xs \<noteq> []" by auto
    moreover obtain s where
      "(if x = JUndefined \<or> x = JNull then Inr [] else toString numToString x) = Inr s"
      using convertible_toString(1) [OF True, of numToString] by (cases "x = JUndefined \<or> x = JNull") auto
    ultimately show ?thesis using "12.IH"(2) rest by simp
  qed
qed auto

lemma toString_throws:
  "toString nts (JObj [(''toString'', JNum (Fin 1))])
     = Inl (TypeError ''Cannot convert object to primitive value'')"
  by simp

lemma volume_text_take:
  "i < n \<Longrightarrow> volume_text nts (JArr (take n vs)) i = volume_text nts (JArr vs) i"
  by (simp add: volume_text_def volume_at_def)

lemma volume_text_null: "volume_text nts JNull i = Inl (TypeError (''Cannot read properties of null (reading '' @ decimal i @ '')''))"
  by (simp add: volume_text_def volume_at_def)

lemma mix_args_null:
  "inputFiles \<noteq> [] \<Longrightarrow> \<exists>e. mix_args nts inputFiles outputFile JNull = Inl e"
  using filter_loop_throws [of 0 inputFiles nts JNull 0 _ "[]"]
  by (auto simp: mix_args_def default_volumes_def volume_text_null)

text \<open>
  When every exception the loop can meet is the same one, that is the one it ends with.
\<close>

lemma filter_loop_throws_same:
  "k < length files \<Longrightarrow> volume_text nts volumes (i + k) = Inl E \<Longrightarrow>
   (\<And>j e. j < length files \<Longrightarrow> volume_text nts volumes (i + j) = Inl e \<Longrightarrow> e = E) \<Longrightarrow>
   filter_loop nts volumes i files fc = Inl E"
proof (induction files arbitrary: i k fc)
  case Nil
  then show ?case by simp
next
  case (Cons x xs)
  show ?case
  proof (cases "volume_text nts volumes i")
    case (Inl e)
    then have "e = E" using Cons.prems(3) [of 0 e] by simp
    then show ?thesis using Inl by simp
  next
    case (Inr v)
    then obtain k' where k': "k = Suc k'"
      using Cons.prems(2) by (cases k) auto
    have "k' < length xs" "volume_text nts volumes (Suc i + k') = Inl E"
      using Cons.prems k' by simp_all
    moreover have "\<And>j e. j < length xs \<Longrightarrow> volume_text nts volumes (Suc i + j) = Inl e \<Longrightarrow> e = E"
      using Cons.prems(3) [of "Suc j" for j] by simp
    ultimately have "filter_loop nts volumes (Suc i) xs (fc @ segment i v) = Inl E"
      by (rule Cons.IH)
    then show ?thesis using Inr by simp
  qed
qed

text \<open>The argument list for an array of volumes whose conversions return.\<close>

lemma mix_args_array:
  assumes "\<And>i. i < length inputFiles \<Longrightarrow> toString nts (effective_volume vs i) = Inr (t i)"
  shows "mix_args nts inputFiles outputFile (JArr vs) =
     Inr (concat (map (\<lambda>file. [''-i'', file]) inputFiles) @
          [''-filter_complex'',
           concat (map (\<lambda>i. ''['' @ decimal i @ '':a]volume='' @ t i @ ''[a'' @ decimal i @ ''];'')
                     [0..<length inputFiles])
             @ concat (map (\<lambda>i. ''[a'' @ decimal i @ '']'') [0..<length inputFiles])
             @ ''amix=inputs='' @ decimal (length inputFiles) @ '':duration=longest[out]'',
           ''-map'', ''[out]'', ''-c:a'', ''mp3'', ''-b:a'', ''192k'', ''-y'', outputFile])"
proof -
  have "filter_loop nts (JArr vs) 0 inputFiles [] =
          Inr ([] @ concat (map (\<lambda>j. segment j (t j)) [0..<0 + length inputFiles]))"
    by (rule filter_loop_ok) (simp add: assms volume_text_array)
  then show ?thesis
    by (simp add: mix_args_def default_volumes_def push_inputs_eq segment_def mixInputs_def)
qed

lemma mix_args_absent:
  "mix_args nts inputFiles outputFile JUndefined = mix_args nts inputFiles outputFile (JArr [])"
  by (simp add: mix_args_def default_volumes_def)

lemma conversions_exist:
  assumes "\<forall>i<n. convertible (effective_volume vs i)"
  shows "\<exists>t. \<forall>i<n. toString nts (effective_volume vs i) = Inr (t i)"
proof -
  have "\<forall>i. \<exists>s. i < n \<longrightarrow> toString nts (effective_volume vs i) = Inr s"
    using assms convertible_toString(1) by blast
  then show ?thesis by metis
qed

text \<open>
  C7, as amended. The claim as stated fails for \<^verbatim>\<open>volumes = null\<close>, where the index read
  throws and no process is started. What holds: for a non-empty list of input files and
  \<^verbatim>\<open>volumes\<close> either absent or an array whose entries used (the truthy ones among the
  first \<open>length inputFiles\<close>) are convertible to strings, \<^verbatim>\<open>mixAudioFiles\<close> starts exactly
  one process, and its argument list is: the inputs as \<^verbatim>\<open>-i\<close> sources in the order
  given; a filter graph with one volume filter per input, numbered in the same order and
  carrying the text \<open>t i\<close> of the volume of that index, followed by \<^verbatim>\<open>amix\<close> over all the
  inputs with \<^verbatim>\<open>duration=longest\<close>; the mp3 codec at 192k; and \<^verbatim>\<open>-y\<close> right before the
  output path.
\<close>

theorem mixAudioFiles_spawns_one_argument_list:
  assumes "inputFiles \<noteq> []"
    and "volumes = JUndefined \<and> vs = [] \<or> volumes = JArr vs"
    and "\<forall>i<length inputFiles. convertible (effective_volume vs i)"
  shows "\<exists>t r st'.
     (\<forall>i<length inputFiles.
         toString (numberToString env) (effective_volume vs i) = Inr (t i)) \<and>
     mixAudioFiles env inputFiles outputFile volumes st = (r, st') \<and>
     trace st' = trace st @
       [Spawn (concat (map (\<lambda>file. [''-i'', file]) inputFiles) @
          [''-filter_complex'',
           concat (map (\<lambda>i. ''['' @ decimal i @ '':a]volume='' @ t i @ ''[a'' @ decimal i @ ''];'')
                     [0..<length inputFiles])
             @ concat (map (\<lambda>i. ''[a'' @ decimal i @ '']'') [0..<length inputFiles])
             @ ''amix=inputs='' @ decimal (length inputFiles) @ '':duration=longest[out]'',
           ''-map'', ''[out]'', ''-c:a'', ''mp3'', ''-b:a'', ''192k'', ''-y'', outputFile])]"
proof -
  obtain t where t: "\<forall>i<length inputFiles.
      toString (numberToString env) (effective_volume vs i) = Inr (t i)"
    using conversions_exist [OF assms(3)] by blast
  let ?args = "concat (map (\<lambda>file. [''-i'', file]) inputFiles) @
          [''-filter_complex'',
           concat (map (\<lambda>i. ''['' @ decimal i @ '':a]volume='' @ t i @ ''[a'' @ decimal i @ ''];'')
                     [0..<length inputFiles])
             @ concat (map (\<lambda>i. ''[a'' @ decimal i @ '']'') [0..<length inputFiles])
             @ ''amix=inputs='' @ decimal (length inputFiles) @ '':duration=longest[out]'',
           ''-map'', ''[out]'', ''-c:a'', ''mp3'', ''-b:a'', ''192k'', ''-y'', outputFile]"
  have "mix_args (numberToString env) inputFiles outputFile (JArr vs) = Inr ?args"
    by (rule mix_args_array) (simp add: t)
  then have args: "mix_args (numberToString env) inputFiles outputFile volumes = Inr ?args"
    using assms(2) by (auto simp: mix_args_absent)
  obtain r st' where run: "mixAudioFiles env inputFiles outputFile volumes st = (r, st')"
    by (cases "mixAudioFiles env inputFiles outputFile volumes st")
  then have "trace st' = trace st @ [Spawn ?args]"
    using args
    by (auto simp: mixAudioFiles_def Let_def emit_def split: process_result.splits if_splits)
  then show ?thesis using t run by blast
qed

theorem mixAudioFiles_spawns_one_argument_list_witness:
  "[''a.wav'', ''b.wav''] \<noteq> [] \<and>
   convertible (effective_volume [] 0) \<and>
   convertible (effective_volume [] 1) \<and>
   (\<exists>r st'.
      mixAudioFiles sample_env [''a.wav'', ''b.wav''] ''out.mp3'' JUndefined
        \<lparr>fs = Map.empty, trace = [], tempFiles = []\<rparr> = (r, st') \<and>
      trace st' =
        [Spawn [''-i'', ''a.wav'', ''-i'', ''b.wav'', ''-filter_complex'',
                ''[0:a]volume=1[a0];[1:a]volume=1[a1];[a0][a1]amix=inputs=2:duration=longest[out]'',
                ''-map'', ''[out]'', ''-c:a'', ''mp3'', ''-b:a'', ''192k'', ''-y'', ''out.mp3'']])"
proof -
  have two: "[0..<2] = [0, Suc 0]"
    by (simp add: upt_rec)
  have c: "\<forall>i<length [''a.wav'', ''b.wav'']. convertible (effective_volume [] i)"
    by (simp add: effective_volume_def)
  obtain t r st' where
    t: "\<forall>i<length [''a.wav'', ''b.wav''].
          toString (numberToString sample_env) (effective_volume [] i) = Inr (t i)"
    and run: "mixAudioFiles sample_env [''a.wav'', ''b.wav''] ''out.mp3'' JUndefined
        \<lparr>fs = Map.empty, trace = [], tempFiles = []\<rparr> = (r, st')"
    and tr: "trace st' = trace \<lparr>fs = Map.empty, trace = [], tempFiles = []\<rparr> @
       [Spawn (concat (map (\<lambda>file. [''-i'', file]) [''a.wav'', ''b.wav'']) @
          [''-filter_complex'',
           concat (map (\<lambda>i. ''['' @ decimal i @ '':a]volume='' @ t i @ ''[a'' @ decimal i @ ''];'')
                     [0..<length [''a.wav'', ''b.wav'']])
             @ concat (map (\<lambda>i. ''[a'' @ decimal i @ '']'') [0..<length [''a.wav'', ''b.wav'']])
             @ ''amix=inputs='' @ decimal (length [''a.wav'', ''b.wav'']) @ '':duration=longest[out]'',
           ''-map'', ''[out]'', ''-c:a'', ''mp3'', ''-b:a'', ''192k'', ''-y'', ''out.mp3''])]"
    using mixAudioFiles_spawns_one_argument_list [of "[''a.wav'', ''b.wav'']" JUndefined "[]"
        sample_env "''out.mp3''" "\<lparr>fs = Map.empty, trace = [], tempFiles = []\<rparr>", OF _ _ c]
    by auto
  have "t 0 = ''1''" "t (Suc 0) = ''1''"
    using t [rule_format, of 0] t [rule_format, of "Suc 0"]
    by (simp_all add: effective_volume_def sample_env_def sample_numToString_def)
  then show ?thesis
    using run tr c by (simp add: two decimal.simps digit_def effective_volume_def)
qed

theorem null_volumes_no_process:
  "mix_args sample_numToString [''/app/temp/r1_stem_0.wav''] ''/app/temp/r1_mixed.mp3'' JNull
     = Inl (TypeError ''Cannot read properties of null (reading 0)'') \<and>
   mixAudioFiles sample_env [''/app/temp/r1_stem_0.wav''] ''/app/temp/r1_mixed.mp3'' JNull
       \<lparr>fs = Map.empty, trace = [], tempFiles = []\<rparr>
     = (Some (TypeError ''Cannot read properties of null (reading 0)''),
        \<lparr>fs = Map.empty, trace = [], tempFiles = []\<rparr>)"
  by (simp add: mixAudioFiles_def mix_args_def default_volumes_def volume_text_def volume_at_def
      sample_env_def decimal.simps digit_def)

text \<open>
  C9, as amended. The claim as stated fails for a truthy object with an entry named
  \<^verbatim>\<open>toString\<close>: its conversion throws and nothing is interpolated. What holds for an array
  of volumes: an entry that is falsy (the number 0, \<^verbatim>\<open>null\<close>, NaN, the empty string,
  \<^verbatim>\<open>false\<close>) or missing is replaced by 1.0, and a truthy entry of any type goes
  unchanged, with no check of its type or range, into the template literal. When all
  the values so used are convertible, the text after \<^verbatim>\<open>volume=\<close> in segment \<open>i\<close> is the
  string conversion \<open>t i\<close> of \<open>effective_volume vs i\<close>; otherwise the conversion throws
  and no filter string is built.
\<close>

theorem volume_entry_default_or_converted:
  "(if \<forall>i<length inputFiles. convertible (effective_volume vs i)
    then \<exists>t. (\<forall>i<length inputFiles. toString nts (effective_volume vs i) = Inr (t i)) \<and>
           mix_args nts inputFiles outputFile (JArr vs) =
             Inr (concat (map (\<lambda>file. [''-i'', file]) inputFiles) @
                  [''-filter_complex'',
                   concat (map (\<lambda>i. ''['' @ decimal i @ '':a]volume='' @ t i
                                        @ ''[a'' @ decimal i @ ''];'')
                             [0..<length inputFiles])
                     @ mixInputs inputFiles
                     @ ''amix=inputs='' @ decimal (length inputFiles)
                     @ '':duration=longest[out]'',
                   ''-map'', ''[out]'', ''-c:a'', ''mp3'', ''-b:a'', ''192k'', ''-y'',
                   outputFile])
    else mix_args nts inputFiles outputFile (JArr vs)
           = Inl (TypeError ''Cannot convert object to primitive value''))"
proof (cases "\<forall>i<length inputFiles. convertible (effective_volume vs i)")
  case True
  obtain t where t: "\<forall>i<length inputFiles. toString nts (effective_volume vs i) = Inr (t i)"
    using conversions_exist [OF True] by blast
  have "mix_args nts inputFiles outputFile (JArr vs) =
     Inr (concat (map (\<lambda>file. [''-i'', file]) inputFiles) @
          [''-filter_complex'',
           concat (map (\<lambda>i. ''['' @ decimal i @ '':a]volume='' @ t i @ ''[a'' @ decimal i @ ''];'')
                     [0..<length inputFiles])
             @ concat (map (\<lambda>i. ''[a'' @ decimal i @ '']'') [0..<length inputFiles])
             @ ''amix=inputs='' @ decimal (length inputFiles) @ '':duration=longest[out]'',
           ''-map'', ''[out]'', ''-c:a'', ''mp3'', ''-b:a'', ''192k'', ''-y'', outputFile])"
    by (rule mix_args_array) (simp add: t)
  then have built: "mix_args nts inputFiles outputFile (JArr vs) =
             Inr (concat (map (\<lambda>file. [''-i'', file]) inputFiles) @
                  [''-filter_complex'',
                   concat (map (\<lambda>i. ''['' @ decimal i @ '':a]volume='' @ t i
                                        @ ''[a'' @ decimal i @ ''];'')
                             [0..<length inputFiles])
                     @ mixInputs inputFiles
                     @ ''amix=inputs='' @ decimal (length inputFiles)
                     @ '':duration=longest[out]'',
                   ''-map'', ''[out]'', ''-c:a'', ''mp3'', ''-b:a'', ''192k'', ''-y'',
                   outputFile])"
    by (simp only: mixInputs_def)
  show ?thesis
    unfolding if_P [OF True]
    by (rule exI [of _ t]) (rule conjI [OF t built])
next
  case False
  then obtain k where k: "k < length inputFiles" "\<not> convertible (effective_volume vs k)"
    by blast
  let ?E = "TypeError ''Cannot convert object to primitive value''"
  have here: "volume_text nts (JArr vs) (0 + k) = Inl ?E"
    using k(2) by (simp add: volume_text_array inconvertible_toString(1))
  have same: "\<And>j e. j < length inputFiles \<Longrightarrow>
      volume_text nts (JArr vs) (0 + j) = Inl e \<Longrightarrow> e = ?E"
  proof -
    fix j e
    assume e: "volume_text nts (JArr vs) (0 + j) = Inl e"
    show "e = ?E"
    proof (cases "convertible (effective_volume vs j)")
      case True
      then obtain s where "toString nts (effective_volume vs j) = Inr s"
        using convertible_toString(1) by blast
      then show ?thesis
        using e by (simp add: volume_text_array)
    next
      case False
      then show ?thesis
        using e by (simp add: volume_text_array inconvertible_toString(1))
    qed
  qed
  have "filter_loop nts (JArr vs) 0 inputFiles [] = Inl ?E"
    by (rule filter_loop_throws_same [OF k(1) here same])
  then have "mix_args nts inputFiles outputFile (JArr vs) = Inl ?E"
    by (simp add: mix_args_def default_volumes_def)
  then show ?thesis
    unfolding if_not_P [OF False] .
qed

theorem volume_entry_default_or_converted_witness:
  "convertible (effective_volume
      [JNum (Fin 0), JNull, JNum NaN, JStr ''9,volume=9'', JObj [(''x'', JNull)], JNum (Fin 2)] 4) \<and>
   mix_args sample_numToString [''a'', ''b'', ''c'', ''d'', ''e'', ''f''] ''out.mp3''
     (JArr [JNum (Fin 0), JNull, JNum NaN, JStr ''9,volume=9'', JObj [(''x'', JNull)], JNum (Fin 2)]) =
     Inr [''-i'', ''a'', ''-i'', ''b'', ''-i'', ''c'', ''-i'', ''d'', ''-i'', ''e'', ''-i'', ''f'',
          ''-filter_complex'',
          ''[0:a]volume=1[a0];[1:a]volume=1[a1];[2:a]volume=1[a2];[3:a]volume=9,volume=9[a3];''
            @ ''[4:a]volume=[object Object][a4];[5:a]volume=2[a5];''
            @ ''[a0][a1][a2][a3][a4][a5]amix=inputs=6:duration=longest[out]'',
          ''-map'', ''[out]'', ''-c:a'', ''mp3'', ''-b:a'', ''192k'', ''-y'', ''out.mp3'']"
proof -
  let ?vs = "[JNum (Fin 0), JNull, JNum NaN, JStr ''9,volume=9'', JObj [(''x'', JNull)], JNum (Fin 2)]"
  let ?files = "[''a'', ''b'', ''c'', ''d'', ''e'', ''f'']"
  have six: "[0..<6] = [0, 1, 2, 3, 4, 5]"
    by (simp add: upt_rec)
  have cases6: "i = 0 \<or> i = 1 \<or> i = 2 \<or> i = 3 \<or> i = 4 \<or> i = 5" if "i < length ?files" for i :: nat
  proof -
    from that have "i \<in> set [0..<6]" by simp
    then show ?thesis unfolding six by simp
  qed
  have c: "\<forall>i<length ?files. convertible (effective_volume ?vs i)"
  proof (intro allI impI)
    fix i :: nat
    assume "i < length ?files"
    from cases6 [OF this] show "convertible (effective_volume ?vs i)"
      by (elim disjE) (simp_all add: effective_volume_def)
  qed
  obtain t where
    t: "\<forall>i<length ?files. toString sample_numToString (effective_volume ?vs i) = Inr (t i)"
    and m: "mix_args sample_numToString ?files ''out.mp3'' (JArr ?vs) =
             Inr (concat (map (\<lambda>file. [''-i'', file]) ?files) @
                  [''-filter_complex'',
                   concat (map (\<lambda>i. ''['' @ decimal i @ '':a]volume='' @ t i
                                        @ ''[a'' @ decimal i @ ''];'')
                             [0..<length ?files])
                     @ mixInputs ?files
                     @ ''amix=inputs='' @ decimal (length ?files)
                     @ '':duration=longest[out]'',
                   ''-map'', ''[out]'', ''-c:a'', ''mp3'', ''-b:a'', ''192k'', ''-y'',
                   ''out.mp3''])"
    using volume_entry_default_or_converted [of ?files ?vs sample_numToString "''out.mp3''",
        unfolded if_P [OF c]]
    by blast
  have texts: "map t [0, 1, 2, 3, 4, 5]
      = [''1'', ''1'', ''1'', ''9,volume=9'', ''[object Object]'', ''2'']"
    using t [rule_format, of 0] t [rule_format, of 1] t [rule_format, of 2]
      t [rule_format, of 3] t [rule_format, of 4] t [rule_format, of 5]
    by (simp add: effective_volume_def sample_numToString_def)
  have len: "length ?files = 6"
    by simp
  have segs: "concat (map (\<lambda>i. ''['' @ decimal i @ '':a]volume='' @ t i
                                        @ ''[a'' @ decimal i @ ''];'') [0, 1, 2, 3, 4, 5])
      = ''[0:a]volume=1[a0];[1:a]volume=1[a1];[2:a]volume=1[a2];[3:a]volume=9,volume=9[a3];''
            @ ''[4:a]volume=[object Object][a4];[5:a]volume=2[a5];''"
    using texts by (simp add: decimal.simps digit_def)
  have labels: "mixInputs ?files = ''[a0][a1][a2][a3][a4][a5]''"
    unfolding mixInputs_def len six by (simp add: decimal.simps digit_def)
  have c4: "convertible (effective_volume ?vs 4)"
    by (simp add: effective_volume_def)
  show ?thesis
    using m c4 unfolding len six segs labels by (simp add: decimal.simps digit_def)
qed

theorem toString_entry_volume_throws:
  "truthy (JObj [(''toString'', JNum (Fin 1))]) \<and>
   mix_args sample_numToString [''/app/temp/r1_stem_0.wav''] ''/app/temp/r1_mixed.mp3''
       (JArr [JObj [(''toString'', JNum (Fin 1))]])
     = Inl (TypeError ''Cannot convert object to primitive value'')"
  by (simp add: mix_args_def default_volumes_def volume_text_def volume_at_def)

text \<open>
  C10. Only the first \<open>length inputFiles\<close> entries of the volumes array are read: two
  arrays that agree there give the same argument list, whatever follows. So the entries
  of a longer array beyond the last input have no effect.
\<close>

theorem extra_volumes_unread:
  assumes "take (length inputFiles) vs = take (length inputFiles) vs'"
  shows "mix_args nts inputFiles outputFile (JArr vs) = mix_args nts inputFiles outputFile (JArr vs')"
proof -
  have "volume_text nts (JArr vs) k = volume_text nts (JArr vs') k" if "k < length inputFiles" for k
    using volume_text_take [OF that, of nts vs] volume_text_take [OF that, of nts vs'] assms by simp
  then have "filter_loop nts (JArr vs) 0 inputFiles [] = filter_loop nts (JArr vs') 0 inputFiles []"
    by (intro filter_loop_cong) simp
  then show ?thesis
    by (simp add: mix_args_def default_volumes_def)
qed

theorem extra_volumes_unread_witness:
  "take (length [''a.wav'']) [JNum (Fin 2), JNum (Fin (1 / 2)), JStr ''x'']
     = take (length [''a.wav'']) [JNum (Fin 2)] \<and>
   mix_args sample_numToString [''a.wav''] ''out.mp3''
       (JArr [JNum (Fin 2), JNum (Fin (1 / 2)), JStr ''x''])
     = mix_args sample_numToString [''a.wav''] ''out.mp3'' (JArr [JNum (Fin 2)])"
  using extra_volumes_unread [of "[''a.wav'']" "[JNum (Fin 2), JNum (Fin (1 / 2)), JStr ''x'']"
      "[JNum (Fin 2)]" sample_numToString "''out.mp3''"]
  by simp

text \<open>
  C1. The claim: with \<open>M \<le> N\<close> volumes, the invocation applies \<^verbatim>\<open>volumes[i]\<close> to every
  stem \<open>i < M\<close>. The code reads \<^verbatim>\<open>volumes[index] || 1.0\<close>, so a volume of 0 is not
  applied: for one stem with \<^verbatim>\<open>volumes = [0]\<close> the filter is \<^verbatim>\<open>volume=\<close> followed by
  the text of the number 1, not of 0.
\<close>

theorem zero_volume_becomes_unity:
  "mix_args nts [''/app/temp/r1_stem_0.wav''] ''/app/temp/r1_mixed.mp3'' (JArr [JNum (Fin 0)]) =
     Inr [''-i'', ''/app/temp/r1_stem_0.wav'',
          ''-filter_complex'',
          ''[0:a]volume='' @ nts 1 @ ''[a0];[a0]amix=inputs=1:duration=longest[out]'',
          ''-map'', ''[out]'', ''-c:a'', ''mp3'', ''-b:a'', ''192k'', ''-y'',
          ''/app/temp/r1_mixed.mp3'']"
  by (simp add: mix_args_def default_volumes_def volume_text_def volume_at_def segment_def
      mixInputs_def decimal.simps digit_def)

section \<open>cleanup\<close>

text \<open>One step of the loop never throws: a failed unlink becomes a console line.\<close>

lemma cleanup_file_eq:
  "cleanup_file env file st =
     Inr (if fs st file = None then st
          else if unlink_error env file = None
               then emit (CleanedUp file) (st\<lparr>fs := (fs st)(file := None)\<rparr>)
               else emit (FailedToCleanup file) st)"
  by (auto simp: cleanup_file_def existsSync_def unlinkSync_def split: option.splits)

lemma cleanup_returns: "\<exists>st'. cleanup env files st = Inr st'"
  unfolding cleanup_def
  by (induction files arbitrary: st) (simp_all add: cleanup_file_eq)

lemma json_sent_append [simp]: "json_sent (xs @ ys) = json_sent xs @ json_sent ys"
  by (simp add: json_sent_def)

lemma written_append [simp]: "written (xs @ ys) = written xs @ written ys"
  by (simp add: written_def)

lemma downloads_append [simp]: "downloads (xs @ ys) = downloads xs @ downloads ys"
  by (simp add: downloads_def)

text \<open>
  What a call of \<^verbatim>\<open>cleanup\<close> changes: it creates no file, it removes every listed file
  whose unlink is not refused, and it adds console lines only.
\<close>

lemma cleanup_effect:
  "cleanup env files st = Inr st' \<Longrightarrow>
     tempFiles st' = tempFiles st \<and>
     (\<forall>f. fs st f = None \<longrightarrow> fs st' f = None) \<and>
     (\<forall>f\<in>set files. unlink_error env f = None \<longrightarrow> fs st' f = None) \<and>
     (\<exists>evs. trace st' = trace st @ evs \<and> json_sent evs = [] \<and> written evs = []
             \<and> downloads evs = [])"
  unfolding cleanup_def
proof (induction files arbitrary: st)
  case Nil
  then show ?case by (auto simp: json_sent_def written_def downloads_def)
next
  case (Cons x xs)
  obtain st1 where st1: "cleanup_file env x st = Inr st1"
    using cleanup_file_eq by blast
  have rest: "forEach (cleanup_file env) xs st1 = Inr st'"
    using Cons.prems st1 by simp
  have one: "tempFiles st1 = tempFiles st" "\<forall>f. fs st f = None \<longrightarrow> fs st1 f = None"
    "unlink_error env x = None \<longrightarrow> fs st1 x = None"
    "\<exists>evs. trace st1 = trace st @ evs \<and> json_sent evs = [] \<and> written evs = []
           \<and> downloads evs = []"
    using st1
    by (auto simp: cleanup_file_eq emit_def json_sent_def written_def downloads_def
        split: if_splits)
  from Cons.IH [OF rest] one show ?case
    by auto
qed

text \<open>
  A pass over files that are either gone or refuse to be unlinked changes no file and
  prints one line per file that is still there.
\<close>

lemma cleanup_second_pass:
  "\<forall>f\<in>set files. existsSync (fs st) f \<longrightarrow> unlink_error env f \<noteq> None \<Longrightarrow>
   cleanup env files st =
     Inr (st\<lparr>trace := trace st @ map FailedToCleanup (filter (existsSync (fs st)) files)\<rparr>)"
  unfolding cleanup_def
proof (induction files arbitrary: st)
  case Nil
  then show ?case by simp
next
  case (Cons x xs)
  show ?case
  proof (cases "existsSync (fs st) x")
    case False
    then show ?thesis using Cons.IH [of st] Cons.prems
      by (simp add: cleanup_file_eq existsSync_def)
  next
    case True
    then have "cleanup_file env x st = Inr (emit (FailedToCleanup x) st)"
      using Cons.prems by (auto simp: cleanup_file_eq existsSync_def)
    moreover have "fs (emit (FailedToCleanup x) st) = fs st"
      by (simp add: emit_def)
    ultimately show ?thesis
      using Cons.IH [of "emit (FailedToCleanup x) st"] Cons.prems True
      by (simp add: emit_def)
  qed
qed

text \<open>
  C8. \<^verbatim>\<open>cleanup\<close> always returns normally, whatever \<^verbatim>\<open>unlinkSync\<close> refuses: no exception
  reaches the caller. A refused file does not stop the loop: after the first pass every
  listed file whose unlink is not refused is gone. A second pass on the same list returns
  normally too, leaves the file system as it is, and prints nothing for the files already
  deleted (its only lines are for the files that are still there).
\<close>

theorem cleanup_idempotent_total:
  "\<exists>st1 st2.
     cleanup env files st = Inr st1 \<and>
     cleanup env files st1 = Inr st2 \<and>
     fs st2 = fs st1 \<and>
     trace st2 = trace st1 @ map FailedToCleanup (filter (existsSync (fs st1)) files) \<and>
     (\<forall>f\<in>set files. unlink_error env f = None \<longrightarrow> \<not> existsSync (fs st1) f)"
proof -
  obtain st1 where st1: "cleanup env files st = Inr st1"
    using cleanup_returns by blast
  have gone: "\<forall>f\<in>set files. unlink_error env f = None \<longrightarrow> \<not> existsSync (fs st1) f"
    using cleanup_effect [OF st1] by (simp add: existsSync_def)
  then have "\<forall>f\<in>set files. existsSync (fs st1) f \<longrightarrow> unlink_error env f \<noteq> None"
    by blast
  from cleanup_second_pass [OF this] st1 gone show ?thesis
    by simp
qed

theorem cleanup_idempotent_total_witness:
  "unlink_error sample_env ''/app/temp/r1_stem_0.wav'' = None \<and>
   unlink_error sample_env ''/app/temp/locked'' \<noteq> None \<and>
   (\<exists>st1 st2.
      cleanup sample_env [''/app/temp/locked'', ''/app/temp/r1_stem_0.wav'']
        \<lparr>fs = [''/app/temp/locked'' \<mapsto> ''a'', ''/app/temp/r1_stem_0.wav'' \<mapsto> ''b''],
         trace = [], tempFiles = []\<rparr> = Inr st1 \<and>
      cleanup sample_env [''/app/temp/locked'', ''/app/temp/r1_stem_0.wav''] st1 = Inr st2 \<and>
      fs st2 = fs st1 \<and>
      trace st2 = trace st1 @ map FailedToCleanup
         (filter (existsSync (fs st1)) [''/app/temp/locked'', ''/app/temp/r1_stem_0.wav'']) \<and>
      \<not> existsSync (fs st1) ''/app/temp/r1_stem_0.wav'')"
proof -
  have u: "unlink_error sample_env ''/app/temp/r1_stem_0.wav'' = None"
    "unlink_error sample_env ''/app/temp/locked'' \<noteq> None"
    by (simp_all add: sample_env_def)
  obtain st1 st2 where
    "cleanup sample_env [''/app/temp/locked'', ''/app/temp/r1_stem_0.wav'']
        \<lparr>fs = [''/app/temp/locked'' \<mapsto> ''a'', ''/app/temp/r1_stem_0.wav'' \<mapsto> ''b''],
         trace = [], tempFiles = []\<rparr> = Inr st1"
    "cleanup sample_env [''/app/temp/locked'', ''/app/temp/r1_stem_0.wav''] st1 = Inr st2"
    "fs st2 = fs st1"
    "trace st2 = trace st1 @ map FailedToCleanup
         (filter (existsSync (fs st1)) [''/app/temp/locked'', ''/app/temp/r1_stem_0.wav''])"
    and gone: "\<forall>f\<in>set [''/app/temp/locked'', ''/app/temp/r1_stem_0.wav''].
       unlink_error sample_env f = None \<longrightarrow> \<not> existsSync (fs st1) f"
    using cleanup_idempotent_total [of sample_env
        "[''/app/temp/locked'', ''/app/temp/r1_stem_0.wav'']"
        "\<lparr>fs = [''/app/temp/locked'' \<mapsto> ''a'', ''/app/temp/r1_stem_0.wav'' \<mapsto> ''b''],
         trace = [], tempFiles = []\<rparr>"]
    by blast
  moreover from gone u(1) have "\<not> existsSync (fs st1) ''/app/temp/r1_stem_0.wav''"
    by simp
  ultimately show ?thesis
    using u by blast
qed

section \<open>Validation\<close>

lemma trim_Nil [simp]: "trim [] = []"
  by (simp add: trim_def)

lemma acceptable_stem_JStr: "acceptable_stem (JStr s) = (trim s \<noteq> [])"
  by (simp add: acceptable_stem_def)

lemma acceptable_stem_JObj:
  "acceptable_stem (JObj kvs) = (\<exists>u. map_of kvs ''url'' = Some (JStr u) \<and> trim u \<noteq> [])"
  by (simp add: acceptable_stem_def split: option.splits jsval.splits)

text \<open>
  Where the handler's test of one stem lets the loop go on, the stem is one the
  specification accepts.
\<close>

lemma acceptable_stem_url:
  assumes "acceptable_stem x"
  shows "\<exists>s. stem_url x = Some (JStr s) \<and> trim s \<noteq> []"
proof (cases x)
  case (JStr s)
  then show ?thesis using assms by (simp add: acceptable_stem_JStr stem_url_def)
next
  case (JObj kvs)
  then obtain u where "map_of kvs ''url'' = Some (JStr u)" "trim u \<noteq> []"
    using assms by (auto simp: acceptable_stem_JObj)
  moreover from this have "u \<noteq> []" by auto
  ultimately show ?thesis using JObj by (simp add: stem_url_def)
qed (use assms in \<open>simp_all add: acceptable_stem_def\<close>)

lemma unacceptable_stem_url:
  assumes "\<not> acceptable_stem x"
  shows "stem_url x = None \<or>
         (\<exists>u. stem_url x = Some u \<and> (\<forall>s. u = JStr s \<longrightarrow> trim s = []))"
proof (cases x)
  case (JStr s)
  then show ?thesis using assms by (simp add: acceptable_stem_JStr stem_url_def)
next
  case (JObj kvs)
  then show ?thesis using assms
    by (cases "map_of kvs ''url''") (auto simp: acceptable_stem_JObj stem_url_def)
qed (simp_all add: stem_url_def)

text \<open>
  With a stem the specification does not accept, the loop never reaches its end: it
  answers 400 or throws.
\<close>

lemma validate_step_unacceptable:
  assumes "\<not> acceptable_stem x"
  shows "validate_stems nts rid i (x # xs) acc \<noteq> Validated urls"
proof (cases "toString nts x")
  case (Inl e)
  then show ?thesis by simp
next
  case (Inr stringValue)
  show ?thesis
  proof (cases "stem_url x")
    case None
    then show ?thesis using Inr by simp
  next
    case (Some u)
    then have empty: "\<forall>s. u = JStr s \<longrightarrow> trim s = []"
      using unacceptable_stem_url [OF assms] by simp
    show ?thesis
    proof (cases "toString nts u")
      case (Inl e)
      then show ?thesis using Inr Some by simp
    next
      case shown: (Inr shown)
      show ?thesis
        using Inr Some shown empty by (cases u) simp_all
    qed
  qed
qed

lemma validate_stems_not_validated:
  "\<exists>x\<in>set xs. \<not> acceptable_stem x \<Longrightarrow> validate_stems nts rid i xs acc \<noteq> Validated urls"
proof (induction xs arbitrary: i acc)
  case Nil
  then show ?case by simp
next
  case (Cons x xs)
  show ?case
  proof (cases "acceptable_stem x")
    case True
    then obtain s where s: "stem_url x = Some (JStr s)" "trim s \<noteq> []"
      using acceptable_stem_url by blast
    have "\<exists>x\<in>set xs. \<not> acceptable_stem x"
      using Cons.prems True by simp
    from Cons.IH [OF this, of "i + 1" "acc @ [trim s]"] s show ?thesis
      by (simp split: sum.splits)
  next
    case False
    then show ?thesis by (rule validate_step_unacceptable)
  qed
qed

section \<open>The responses of the handler\<close>

lemma empty_stems_response:
  assumes "body \<noteq> JUndefined" "body \<noteq> JNull"
    and "\<not> isArray (own_prop body ''stems'') \<or> own_prop body ''stems'' = JArr []"
  shows "mix_handler env body files =
     (None, \<lparr>fs = files,
             trace = [SendJson 400
                        [(''error'', JStr ''stems array is required and must not be empty'')]],
             tempFiles = []\<rparr>)"
  using assms by (auto simp: mix_handler_def mix_try_def emit_def Let_def)

text \<open>The two ends of a request whose stems do not pass validation.\<close>

lemma rejected_stems_response:
  assumes "own_prop body ''stems'' = JArr stems" and "stems \<noteq> []"
    and "validate_stems (numberToString env) (requestId env) 0 stems [] = Responds400 rejection"
  shows "mix_handler env body files =
     (None, \<lparr>fs = files, trace = [SendJson 400 rejection], tempFiles = []\<rparr>)"
proof -
  have "body \<noteq> JUndefined" "body \<noteq> JNull"
    using assms(1) by auto
  then show ?thesis
    using assms by (simp add: mix_handler_def mix_try_def emit_def Let_def)
qed

lemma thrown_stems_response:
  assumes "own_prop body ''stems'' = JArr stems" and "stems \<noteq> []"
    and "validate_stems (numberToString env) (requestId env) 0 stems [] = Throws e"
  shows "mix_handler env body files =
     (None, \<lparr>fs = files,
             trace = [CleanupCalled [], SendJson 500 (failure_body env (error_message e))],
             tempFiles = []\<rparr>)"
proof -
  have "body \<noteq> JUndefined" "body \<noteq> JNull"
    using assms(1) by auto
  then show ?thesis
    using assms
    by (simp add: mix_handler_def mix_try_def emit_def Let_def call_cleanup_def cleanup_def)
qed

text \<open>
  The part of C5 that holds for every request: with a stem the specification does not
  accept, \<^verbatim>\<open>downloadFile\<close> is never called, no file changes, and the one response is a
  400 or a 500.
\<close>

lemma unacceptable_stem_no_download:
  assumes "own_prop body ''stems'' = JArr stems"
    and "\<exists>x\<in>set stems. \<not> acceptable_stem x"
  shows "\<exists>st code obj.
     mix_handler env body files = (None, st) \<and>
     fs st = files \<and>
     downloads (trace st) = [] \<and>
     json_sent (trace st) = [(code, obj)] \<and>
     (code = 400 \<or> code = 500)"
proof -
  have ne: "stems \<noteq> []"
    using assms(2) by auto
  show ?thesis
  proof (cases "validate_stems (numberToString env) (requestId env) 0 stems []")
    case (Throws e)
    show ?thesis
      using thrown_stems_response [OF assms(1) ne Throws, of files]
      by (simp add: downloads_def json_sent_def)
  next
    case (Responds400 rejection)
    show ?thesis
      using rejected_stems_response [OF assms(1) ne Responds400, of files]
      by (simp add: downloads_def json_sent_def)
  next
    case (Validated urls)
    then show ?thesis
      using validate_stems_not_validated [OF assms(2)] by blast
  qed
qed

text \<open>
  C6. When \<^verbatim>\<open>stems\<close> is missing, is not an array, or is the empty array, the handler
  answers 400 and never calls \<^verbatim>\<open>downloadFile\<close>; it touches no file either. (The body
  parser hands the handler an object or an array, never \<^verbatim>\<open>null\<close>.)
\<close>

theorem missing_stems_400_no_download:
  assumes "body \<noteq> JUndefined" and "body \<noteq> JNull"
    and "\<not> isArray (own_prop body ''stems'') \<or> own_prop body ''stems'' = JArr []"
  shows "\<exists>st. mix_handler env body files = (None, st) \<and>
     json_sent (trace st)
       = [(400, [(''error'', JStr ''stems array is required and must not be empty'')])] \<and>
     downloads (trace st) = [] \<and>
     fs st = files"
  using empty_stems_response [OF assms, of env files]
  by (simp add: json_sent_def downloads_def)

theorem missing_stems_400_no_download_witness:
  "JObj [(''volumes'', JArr [JNum (Fin 1)])] \<noteq> JUndefined \<and>
   JObj [(''volumes'', JArr [JNum (Fin 1)])] \<noteq> JNull \<and>
   \<not> isArray (own_prop (JObj [(''volumes'', JArr [JNum (Fin 1)])]) ''stems'') \<and>
   (\<exists>st. mix_handler sample_env (JObj [(''volumes'', JArr [JNum (Fin 1)])]) Map.empty = (None, st) \<and>
     json_sent (trace st)
       = [(400, [(''error'', JStr ''stems array is required and must not be empty'')])] \<and>
     downloads (trace st) = [] \<and>
     fs st = Map.empty)"
  using missing_stems_400_no_download [of "JObj [(''volumes'', JArr [JNum (Fin 1)])]" sample_env Map.empty]
  by simp

text \<open>
  C3. The claim: every validation failure answers 400 with an error string, the received
  value and the request's token, also when \<^verbatim>\<open>stems\<close> is absent. For the body \<^verbatim>\<open>{}\<close> the
  handler answers 400 with the error string alone: neither \<^verbatim>\<open>received\<close> nor
  \<^verbatim>\<open>requestId\<close> is in the object sent.
\<close>

theorem empty_stems_body_has_no_requestId:
  "mix_handler env (JObj []) files =
     (None, \<lparr>fs = files,
             trace = [SendJson 400
                        [(''error'', JStr ''stems array is required and must not be empty'')]],
             tempFiles = []\<rparr>)"
  by (rule empty_stems_response) simp_all

text \<open>The two later rejections of the validation loop do carry all three fields.\<close>

lemma rejection_fields:
  "map fst (invalid_stem rid i v) = [''error'', ''received'', ''requestId'']"
  "map fst (invalid_url rid i v) = [''error'', ''received'', ''requestId'']"
  by (simp_all add: invalid_stem_def invalid_url_def)

text \<open>A stem that is a number is answered as the claim C5 says: 400, with its index.\<close>

lemma number_stem_run:
  "mix_handler env (JObj [(''stems'', JArr [JStr ''https://x/a.wav'', JNum (Fin 5)])]) files =
     (None, \<lparr>fs = files,
             trace = [SendJson 400 (invalid_stem (requestId env) 1 (JNum (Fin 5)))],
             tempFiles = []\<rparr>)"
  by (rule rejected_stems_response [where stems = "[JStr ''https://x/a.wav'', JNum (Fin 5)]"])
     (simp_all add: stem_url_def trim_def is_space_def)

text \<open>
  C5. The claim: a stems list with an element that is neither a string that is non-empty
  after trimming nor an object whose \<^verbatim>\<open>url\<close> is such a string is answered 400, with the
  index of the first such element. The stem \<^verbatim>\<open>{"url": 5}\<close> is such an element, and the
  handler's branch for it is the 400 \<^verbatim>\<open>Invalid URL at index 0\<close>; but the console line
  of that branch evaluates \<^verbatim>\<open>stemUrl.trim()\<close> on the number 5, which throws, so the
  \<^verbatim>\<open>catch\<close> block answers 500.
\<close>

theorem number_url_answers_500:
  "\<not> acceptable_stem (JObj [(''url'', JNum (Fin 5))]) \<and>
   mix_handler env (JObj [(''stems'', JArr [JObj [(''url'', JNum (Fin 5))]])]) files =
     (None, \<lparr>fs = files,
             trace = [CleanupCalled [],
                      SendJson 500 (failure_body env ''stemUrl.trim is not a function'')],
             tempFiles = []\<rparr>)"
proof -
  have "validate_stems (numberToString env) (requestId env) 0 [JObj [(''url'', JNum (Fin 5))]] []
      = Throws (TypeError ''stemUrl.trim is not a function'')"
    by (simp add: stem_url_def)
  from thrown_stems_response [OF _ _ this, of "JObj [(''stems'', JArr [JObj [(''url'', JNum (Fin 5))]])]" files]
  show ?thesis
    by (simp add: acceptable_stem_def error_message_def)
qed

text \<open>So does \<^verbatim>\<open>String(stem)\<close> in the first console line, for a stem it cannot convert.\<close>

lemma toString_stem_run:
  "mix_handler env (JObj [(''stems'', JArr [JObj [(''toString'', JNum (Fin 1))]])]) files =
     (None, \<lparr>fs = files,
             trace = [CleanupCalled [],
                      SendJson 500 (failure_body env ''Cannot convert object to primitive value'')],
             tempFiles = []\<rparr>)"
proof -
  have "validate_stems (numberToString env) (requestId env) 0 [JObj [(''toString'', JNum (Fin 1))]] []
      = Throws (TypeError ''Cannot convert object to primitive value'')"
    by simp
  from thrown_stems_response [OF _ _ this, of "JObj [(''stems'', JArr [JObj [(''toString'', JNum (Fin 1))]])]" files]
  show ?thesis
    by (simp add: error_message_def)
qed

section \<open>Downloads\<close>

text \<open>
  A call of \<^verbatim>\<open>downloadFile\<close> sends no response and leaves \<^verbatim>\<open>tempFiles\<close> alone; it writes
  its file exactly when it returns normally.
\<close>

lemma downloadFile_effect:
  "downloadFile env url path st = (r, st') \<Longrightarrow>
     tempFiles st' = tempFiles st \<and>
     (\<exists>evs. trace st' = trace st @ evs \<and> json_sent evs = [] \<and>
            written evs = (if r = None then [path] else []))"
  by (auto simp: downloadFile_def emit_def Let_def json_sent_def written_def
      split: if_splits fetch_result.splits sum.splits option.splits)

lemma downloadFile_non_success:
  "non_success env url \<Longrightarrow> \<exists>e st'. downloadFile env url path st = (Some e, st')"
  by (auto simp: downloadFile_def non_success_def Let_def split: fetch_result.splits)

text \<open>
  The download loop keeps \<^verbatim>\<open>tempFiles\<close> equal to the files written so far, whether it
  ends normally or by an exception.
\<close>

lemma download_loop_effect:
  "download_loop env i urls inp st = (r, st') \<Longrightarrow>
     \<exists>evs. trace st' = trace st @ evs \<and> json_sent evs = [] \<and>
           tempFiles st' = tempFiles st @ written evs"
proof (induction urls arbitrary: i inp st)
  case Nil
  then show ?case by (auto simp: json_sent_def written_def)
next
  case (Cons url urls)
  define path where "path = path_join env (tempDir env) (stem_filename (requestId env) i url)"
  obtain r1 st1 where d: "downloadFile env url path st = (r1, st1)"
    by (cases "downloadFile env url path st")
  from downloadFile_effect [OF d] obtain evs1 where
    e1: "tempFiles st1 = tempFiles st" "trace st1 = trace st @ evs1" "json_sent evs1 = []"
        "written evs1 = (if r1 = None then [path] else [])"
    by blast
  show ?case
  proof (cases r1)
    case (Some e)
    then have "st' = st1"
      using Cons.prems d by (simp add: path_def Let_def)
    then show ?thesis using e1 Some by auto
  next
    case None
    then have "download_loop env (i + 1) urls (inp @ [path])
        (st1\<lparr>tempFiles := tempFiles st1 @ [path]\<rparr>) = (r, st')"
      using Cons.prems d by (simp add: path_def Let_def)
    from Cons.IH [OF this] obtain evs where
      "trace st' = trace st1 @ evs" "json_sent evs = []"
      "tempFiles st' = tempFiles st1 @ [path] @ written evs"
      by auto
    then show ?thesis using e1 None
      by (intro exI [of _ "evs1 @ evs"]) simp
  qed
qed

text \<open>A URL that answers with a non-success status makes the loop end by an exception.\<close>

lemma download_loop_non_success:
  "\<exists>url\<in>set urls. non_success env url \<Longrightarrow>
     \<exists>e st'. download_loop env i urls inp st = (Inl e, st')"
proof (induction urls arbitrary: i inp st)
  case Nil
  then show ?case by simp
next
  case (Cons url urls)
  define path where "path = path_join env (tempDir env) (stem_filename (requestId env) i url)"
  obtain r1 st1 where d: "downloadFile env url path st = (r1, st1)"
    by (cases "downloadFile env url path st")
  show ?case
  proof (cases r1)
    case (Some e)
    then show ?thesis using d by (simp add: path_def Let_def)
  next
    case None
    then have "\<not> non_success env url"
      using d downloadFile_non_success [of env url path st] by auto
    then have "\<exists>url\<in>set urls. non_success env url"
      using Cons.prems by simp
    from Cons.IH [OF this, of "i + 1" "inp @ [path]" "st1\<lparr>tempFiles := tempFiles st1 @ [path]\<rparr>"]
    show ?thesis using d None by (simp add: path_def Let_def)
  qed
qed

text \<open>
  C4. When the stems pass validation and the GET of some stem URL is answered with a
  non-success status, the handler answers 500 and nothing else; before that answer it
  calls \<^verbatim>\<open>cleanup\<close> with exactly the files written for this request (\<open>written before\<close>),
  no file is written afterwards, and at the end none of these files exists, except where
  \<^verbatim>\<open>unlinkSync\<close> itself refuses.
\<close>

theorem download_failure_500_cleanup:
  assumes "own_prop body ''stems'' = JArr stems"
    and "validate_stems (numberToString env) (requestId env) 0 stems [] = Validated urls"
    and "\<exists>url\<in>set urls. non_success env url"
  shows "\<exists>st before after details.
     mix_handler env body files = (None, st) \<and>
     trace st = before @ [CleanupCalled (written before)] @ after
                  @ [SendJson 500 (failure_body env details)] \<and>
     json_sent (trace st) = [(500, failure_body env details)] \<and>
     written (trace st) = written before \<and>
     (\<forall>f\<in>set (written (trace st)). unlink_error env f = None \<longrightarrow> \<not> existsSync (fs st) f)"
proof -
  have ne: "stems \<noteq> []"
    using assms(2,3) by auto
  have body: "body \<noteq> JUndefined" "body \<noteq> JNull"
    using assms(1) by auto
  let ?st0 = "\<lparr>fs = files, trace = [], tempFiles = []\<rparr>"
  obtain e st1 where dl: "download_loop env 0 urls [] ?st0 = (Inl e, st1)"
    using download_loop_non_success [OF assms(3)] by blast
  from download_loop_effect [OF dl] obtain before where
    b: "trace st1 = before" "json_sent before = []" "tempFiles st1 = written before"
    by auto
  have tried: "mix_try env body ?st0 = (Inl e, st1)"
    using body ne assms(1,2) dl by (simp add: mix_try_def Let_def)
  let ?st2 = "emit (CleanupCalled (tempFiles st1)) st1"
  obtain st3 where cl: "cleanup env (tempFiles st1) ?st2 = Inr st3"
    using cleanup_returns by blast
  from cleanup_effect [OF cl] obtain after where
    a: "trace st3 = trace ?st2 @ after" "json_sent after = []" "written after = []"
    and gone: "\<forall>f\<in>set (tempFiles st1). unlink_error env f = None \<longrightarrow> fs st3 f = None"
    by blast
  have "mix_handler env body files =
      (None, emit (SendJson 500 (failure_body env (error_message e))) st3)"
    using tried cl by (simp add: mix_handler_def call_cleanup_def Let_def)
  then show ?thesis
    using a b gone
    by (intro exI [of _ "emit (SendJson 500 (failure_body env (error_message e))) st3"]
          exI [of _ before] exI [of _ after] exI [of _ "error_message e"])
       (simp add: emit_def existsSync_def json_sent_def written_def)
qed

theorem download_failure_500_cleanup_witness:
  "own_prop (JObj [(''stems'', JArr [JStr ''https://x/a.wav'', JStr ''https://x/missing.wav''])])
      ''stems'' = JArr [JStr ''https://x/a.wav'', JStr ''https://x/missing.wav''] \<and>
   validate_stems (numberToString sample_env) (requestId sample_env) 0
      [JStr ''https://x/a.wav'', JStr ''https://x/missing.wav''] []
     = Validated [''https://x/a.wav'', ''https://x/missing.wav''] \<and>
   non_success sample_env ''https://x/missing.wav'' \<and>
   (\<exists>st before after details.
      mix_handler sample_env
        (JObj [(''stems'', JArr [JStr ''https://x/a.wav'', JStr ''https://x/missing.wav''])])
        Map.empty = (None, st) \<and>
      trace st = before @ [CleanupCalled (written before)] @ after
                   @ [SendJson 500 (failure_body sample_env details)] \<and>
      json_sent (trace st) = [(500, failure_body sample_env details)] \<and>
      written (trace st) = written before \<and>
      (\<forall>f\<in>set (written (trace st)).
          unlink_error sample_env f = None \<longrightarrow> \<not> existsSync (fs st) f))"
proof -
  have v: "validate_stems (numberToString sample_env) (requestId sample_env) 0
      [JStr ''https://x/a.wav'', JStr ''https://x/missing.wav''] []
     = Validated [''https://x/a.wav'', ''https://x/missing.wav'']"
    by (simp add: stem_url_def trim_def is_space_def)
  have n: "non_success sample_env ''https://x/missing.wav''"
    by (simp add: non_success_def sample_env_def sample_fetch_def ok_def)
  then have h: "\<exists>url\<in>set [''https://x/a.wav'', ''https://x/missing.wav'']. non_success sample_env url"
    by simp
  show ?thesis
    using v n download_failure_500_cleanup [of
        "JObj [(''stems'', JArr [JStr ''https://x/a.wav'', JStr ''https://x/missing.wav''])]"
        "[JStr ''https://x/a.wav'', JStr ''https://x/missing.wav'']" sample_env
        "[''https://x/a.wav'', ''https://x/missing.wav'']" Map.empty, OF _ v h]
    by simp
qed

text \<open>What that run does, step by step.\<close>

lemma download_failure_run:
  "mix_handler sample_env
     (JObj [(''stems'', JArr [JStr ''https://x/a.wav'', JStr ''https://x/missing.wav''])])
     Map.empty =
   (None,
    \<lparr>fs = Map.empty(''/app/temp/r1_stem_0.wav'' := None),
     trace = [DownloadFile ''https://x/a.wav'' ''/app/temp/r1_stem_0.wav'',
              HttpGet ''https://x/a.wav'', FileWritten ''/app/temp/r1_stem_0.wav'',
              DownloadFile ''https://x/missing.wav'' ''/app/temp/r1_stem_1.wav'',
              HttpGet ''https://x/missing.wav'',
              CleanupCalled [''/app/temp/r1_stem_0.wav''],
              CleanedUp ''/app/temp/r1_stem_0.wav'',
              SendJson 500 (failure_body sample_env ''Failed to download: 404 Not Found'')],
     tempFiles = [''/app/temp/r1_stem_0.wav'']\<rparr>)"
  by (simp add: mix_handler_def mix_try_def Let_def stem_url_def trim_def is_space_def
      downloadFile_def stem_filename_def extract_extension_def sample_env_def sample_fetch_def
      ok_def emit_def call_cleanup_def cleanup_def cleanup_file_def existsSync_def
      unlinkSync_def error_message_def failure_body_def decimal.simps digit_def)

section \<open>The extension of the scratch file name\<close>

lemma extension_flac_with_query:
  "extract_extension ''https://cdn.example.com/stems/track.flac?sig=abc'' = ''flac''"
  by (simp add: extract_extension_def)

lemma extension_no_dot_at_all: "extract_extension ''localhost:8080/track'' = ''wav''"
  by (simp add: extract_extension_def)

text \<open>
  C2. The claim: the extension is what follows the last dot of the URL's final path
  segment, without the query string, and a URL with no dot in its final path segment
  gets \<^verbatim>\<open>wav\<close>. The code splits the whole URL at dots. The URL
  \<^verbatim>\<open>https://example.com/track\<close> passes validation, its final path segment \<^verbatim>\<open>track\<close> has no
  dot, and the file name of stem 0 ends in \<^verbatim>\<open>.com/track\<close>, not in \<^verbatim>\<open>.wav\<close>.
\<close>

theorem extension_taken_from_host_name:
  "validate_stems nts rid 0 [JStr ''https://example.com/track''] []
     = Validated [''https://example.com/track''] \<and>
   extract_extension ''https://example.com/track'' = ''com/track'' \<and>
   stem_filename rid 0 ''https://example.com/track'' = rid @ ''_stem_0.com/track''"
  by (simp add: stem_url_def trim_def is_space_def stem_filename_def extract_extension_def
      decimal.simps digit_def)

end
